theory Spec2Isabelle
  imports Complex_Main
begin

section \<open>Numbers and arrays\<close>

text \<open>
  The program computes on JAX arrays of floating-point numbers. The embedding keeps the
  special values the acceptance logic depends on (\<open>+inf\<close>, \<open>-inf\<close>, \<open>nan\<close>) and treats
  every finite value as an exact real: no rounding, no overflow, and a single zero
  (division of a non-zero value by zero gives the infinity a positive zero gives).
  Comparisons with \<open>nan\<close> are false, arithmetic on \<open>nan\<close> is \<open>nan\<close>.
\<close>

datatype fl = Fin real | PInf | NInf | NaN

fun fneg :: "fl \<Rightarrow> fl" where
  "fneg (Fin a) = Fin (- a)"
| "fneg PInf = NInf"
| "fneg NInf = PInf"
| "fneg NaN = NaN"

fun fadd :: "fl \<Rightarrow> fl \<Rightarrow> fl" where
  "fadd (Fin a) (Fin b) = Fin (a + b)"
| "fadd (Fin a) PInf = PInf"
| "fadd (Fin a) NInf = NInf"
| "fadd PInf (Fin b) = PInf"
| "fadd NInf (Fin b) = NInf"
| "fadd PInf PInf = PInf"
| "fadd NInf NInf = NInf"
| "fadd PInf NInf = NaN"
| "fadd NInf PInf = NaN"
| "fadd NaN y = NaN"
| "fadd x NaN = NaN"

definition fsub :: "fl \<Rightarrow> fl \<Rightarrow> fl" where
  "fsub x y = fadd x (fneg y)"

definition signed_inf :: "real \<Rightarrow> fl" where
  \<comment> \<open>the infinity with the sign of a finite factor; \<open>0 * inf\<close> is \<open>nan\<close>\<close>
  "signed_inf a = (if 0 < a then PInf else if a < 0 then NInf else NaN)"

fun fmul :: "fl \<Rightarrow> fl \<Rightarrow> fl" where
  "fmul (Fin a) (Fin b) = Fin (a * b)"
| "fmul (Fin a) PInf = signed_inf a"
| "fmul (Fin a) NInf = signed_inf (- a)"
| "fmul PInf (Fin b) = signed_inf b"
| "fmul NInf (Fin b) = signed_inf (- b)"
| "fmul PInf PInf = PInf"
| "fmul NInf NInf = PInf"
| "fmul PInf NInf = NInf"
| "fmul NInf PInf = NInf"
| "fmul NaN y = NaN"
| "fmul x NaN = NaN"

fun fdiv :: "fl \<Rightarrow> fl \<Rightarrow> fl" where
  "fdiv (Fin a) (Fin b) = (if b = 0 then signed_inf a else Fin (a / b))"
| "fdiv (Fin a) PInf = Fin 0"
| "fdiv (Fin a) NInf = Fin 0"
| "fdiv PInf (Fin b) = (if 0 \<le> b then PInf else NInf)"
| "fdiv NInf (Fin b) = (if 0 \<le> b then NInf else PInf)"
| "fdiv PInf PInf = NaN"
| "fdiv PInf NInf = NaN"
| "fdiv NInf PInf = NaN"
| "fdiv NInf NInf = NaN"
| "fdiv NaN y = NaN"
| "fdiv x NaN = NaN"

fun flt :: "fl \<Rightarrow> fl \<Rightarrow> bool" where
  "flt (Fin a) (Fin b) = (a < b)"
| "flt (Fin a) PInf = True"
| "flt NInf (Fin b) = True"
| "flt NInf PInf = True"
| "flt x y = False"

fun fle :: "fl \<Rightarrow> fl \<Rightarrow> bool" where
  "fle (Fin a) (Fin b) = (a \<le> b)"
| "fle (Fin a) PInf = True"
| "fle NInf (Fin b) = True"
| "fle NInf PInf = True"
| "fle PInf PInf = True"
| "fle NInf NInf = True"
| "fle x y = False"

definition fgt :: "fl \<Rightarrow> fl \<Rightarrow> bool" where
  "fgt x y = flt y x"

fun fabs :: "fl \<Rightarrow> fl" where
  "fabs (Fin a) = Fin \<bar>a\<bar>"
| "fabs PInf = PInf"
| "fabs NInf = PInf"
| "fabs NaN = NaN"

fun fsqrt :: "fl \<Rightarrow> fl" where
  "fsqrt (Fin a) = (if a < 0 then NaN else Fin (sqrt a))"
| "fsqrt PInf = PInf"
| "fsqrt NInf = NaN"
| "fsqrt NaN = NaN"

fun fmaximum :: "fl \<Rightarrow> fl \<Rightarrow> fl" where
  \<comment> \<open>\<open>jnp.maximum\<close>: \<open>nan\<close> if either argument is\<close>
  "fmaximum NaN y = NaN"
| "fmaximum x NaN = NaN"
| "fmaximum x y = (if flt x y then y else x)"

fun fminimum :: "fl \<Rightarrow> fl \<Rightarrow> fl" where
  \<comment> \<open>\<open>jnp.minimum\<close>: \<open>nan\<close> if either argument is\<close>
  "fminimum NaN y = NaN"
| "fminimum x NaN = NaN"
| "fminimum x y = (if flt y x then y else x)"

definition clip :: "fl \<Rightarrow> fl \<Rightarrow> fl \<Rightarrow> fl" where
  \<comment> \<open>\<open>jnp.clip(a, lo, hi)\<close>\<close>
  "clip a lo hi = fminimum (fmaximum a lo) hi"

definition fpow3 :: "fl \<Rightarrow> fl" where
  \<comment> \<open>\<open>a ** 3\<close>\<close>
  "fpow3 a = fmul a (fmul a a)"

type_synonym vec = "fl list"
type_synonym mat = "fl list list"
type_synonym tensor = "fl list list list"

text \<open>
  Arrays are lists (a matrix is the list of its rows). JAX refuses operands whose shapes
  do not fit when it traces the program; the list operations below are the array
  operations on operands whose shapes fit, with state and control dimensions at least 1.
\<close>

definition fsum :: "fl list \<Rightarrow> fl" where
  \<comment> \<open>\<open>jnp.sum\<close>\<close>
  "fsum xs = foldr fadd xs (Fin 0)"

definition dot :: "vec \<Rightarrow> vec \<Rightarrow> fl" where
  "dot v w = fsum (map2 fmul v w)"

definition vadd :: "vec \<Rightarrow> vec \<Rightarrow> vec" where
  "vadd v w = map2 fadd v w"

definition vsub :: "vec \<Rightarrow> vec \<Rightarrow> vec" where
  "vsub v w = map2 fsub v w"

definition vneg :: "vec \<Rightarrow> vec" where
  "vneg v = map fneg v"

definition smul :: "fl \<Rightarrow> vec \<Rightarrow> vec" where
  "smul a v = map (fmul a) v"

definition madd :: "mat \<Rightarrow> mat \<Rightarrow> mat" where
  "madd A B = map2 vadd A B"

definition msub :: "mat \<Rightarrow> mat \<Rightarrow> mat" where
  "msub A B = map2 vsub A B"

definition mneg :: "mat \<Rightarrow> mat" where
  "mneg A = map vneg A"

definition msmul :: "fl \<Rightarrow> mat \<Rightarrow> mat" where
  "msmul a A = map (smul a) A"

definition matvec :: "mat \<Rightarrow> vec \<Rightarrow> vec" where
  \<comment> \<open>\<open>A @ v\<close>\<close>
  "matvec A v = map (\<lambda>row. dot row v) A"

definition vecmat :: "vec \<Rightarrow> mat \<Rightarrow> vec" where
  \<comment> \<open>\<open>v @ A\<close>\<close>
  "vecmat v A = map (\<lambda>col. dot v col) (transpose A)"

definition matmul :: "mat \<Rightarrow> mat \<Rightarrow> mat" where
  \<comment> \<open>\<open>A @ B\<close>\<close>
  "matmul A B = map (\<lambda>row. vecmat row B) A"

definition eye :: "nat \<Rightarrow> mat" where
  \<comment> \<open>\<open>jnp.eye(n)\<close>\<close>
  "eye n = map (\<lambda>i. map (\<lambda>j. if i = j then Fin 1 else Fin 0) [0..<n]) [0..<n]"

fun msum :: "mat list \<Rightarrow> mat" where
  "msum [] = []"
| "msum [A] = A"
| "msum (A # As) = madd A (msum As)"

definition tensordot1 :: "vec \<Rightarrow> tensor \<Rightarrow> mat" where
  \<comment> \<open>\<open>jnp.tensordot(v, T, axes=1)\<close>: the sum over \<open>i\<close> of \<open>v[i] * T[i]\<close>\<close>
  "tensordot1 v T = msum (map2 msmul v T)"

definition norm_fro :: "vec list \<Rightarrow> fl" where
  \<comment> \<open>\<open>jnp.linalg.norm\<close> of a two-dimensional array: the root of the sum of all squares\<close>
  "norm_fro A = fsqrt (fsum (map (\<lambda>a. fmul (fabs a) (fabs a)) (concat A)))"

datatype error = ZeroSizeReduction | IndexOutOfBounds

definition first_row :: "'a list \<Rightarrow> error + 'a" where
  \<comment> \<open>\<open>a[0]\<close>: raises on an array with no row\<close>
  "first_row xs = (case xs of [] \<Rightarrow> Inl IndexOutOfBounds | y # ys \<Rightarrow> Inr y)"

definition last_row :: "'a list \<Rightarrow> error + 'a" where
  \<comment> \<open>\<open>a[-1]\<close>: raises on an array with no row\<close>
  "last_row xs = (case xs of [] \<Rightarrow> Inl IndexOutOfBounds | y # ys \<Rightarrow> Inr (last xs))"

definition jnp_max :: "fl list \<Rightarrow> error + fl" where
  \<comment> \<open>\<open>jnp.max\<close>: raises on an array with no element\<close>
  "jnp_max xs = (case xs of [] \<Rightarrow> Inl ZeroSizeReduction | y # ys \<Rightarrow> Inr (foldl fmaximum y ys))"

fun scan :: "('c \<Rightarrow> 'a \<Rightarrow> 'c \<times> 'b) \<Rightarrow> 'c \<Rightarrow> 'a list \<Rightarrow> 'c \<times> 'b list" where
  \<comment> \<open>\<open>jax.lax.scan\<close>: thread the carry through the inputs in order, stack the outputs\<close>
  "scan f c [] = (c, [])"
| "scan f c (a # as) =
     (case f c a of (c', b) \<Rightarrow> (case scan f c' as of (c'', bs) \<Rightarrow> (c'', b # bs)))"

definition scan_reverse :: "('c \<Rightarrow> 'a \<Rightarrow> 'c \<times> 'b) \<Rightarrow> 'c \<Rightarrow> 'a list \<Rightarrow> 'c \<times> 'b list" where
  \<comment> \<open>\<open>jax.lax.scan(..., reverse=True)\<close>: inputs are consumed from the last to the first,
      each output is stored at the index of its input\<close>
  "scan_reverse f c as = (case scan f c (rev as) of (c', bs) \<Rightarrow> (c', rev bs))"

section \<open>The problem and the derivative bundle\<close>

text \<open>
  Modelled from the spec: the classes \<open>OCP\<close> and \<open>Derivatives\<close> of
  \<open>noc.optimal_control_problem\<close> are not among the sources. The spec's data model gives
  \<open>OCP\<close> as five functions and the derivative bundle as ten per-stage arrays; the fields
  are named as the code reads them.
\<close>

record OCP =
  dynamics :: "vec \<Rightarrow> vec \<Rightarrow> vec"
  constraints :: "vec \<Rightarrow> vec \<Rightarrow> vec"
  stage_cost :: "vec \<Rightarrow> vec \<Rightarrow> fl \<Rightarrow> fl"
  final_cost :: "vec \<Rightarrow> fl"
  total_cost :: "vec list \<Rightarrow> vec list \<Rightarrow> fl \<Rightarrow> fl"

record Derivatives =
  cx :: "vec list"
  cu :: "vec list"
  cxx :: "mat list"
  cuu :: "mat list"
  cxu :: "mat list"
  fx :: "mat list"
  fu :: "mat list"
  fxx :: "tensor list"
  fuu :: "tensor list"
  fxu :: "tensor list"

text \<open>
  Modelled from the spec: \<open>rollout\<close> of \<open>noc.utils\<close> is not among the sources. The spec:
  given dynamics, an open-loop control sequence and an initial state, it produces the
  open-loop state trajectory (\<open>N + 1\<close> states for \<open>N\<close> controls).
\<close>

fun rollout :: "(vec \<Rightarrow> vec \<Rightarrow> vec) \<Rightarrow> vec list \<Rightarrow> vec \<Rightarrow> vec list" where
  "rollout f [] x0 = [x0]"
| "rollout f (u # us) x0 = x0 # rollout f us (f x0 u)"

text \<open>
  The functions of the JAX library that the program calls on its own data: automatic
  differentiation (\<open>grad\<close>, \<open>hessian\<close>, \<open>jacrev\<close>, each applied to the function it
  differentiates), the linear solver and the symmetric eigenvalue decomposition (its
  eigenvalues). They are parameters of the embedding.
\<close>

record jax_env =
  grad_final :: "(vec \<Rightarrow> fl) \<Rightarrow> vec \<Rightarrow> vec"
  hessian_final :: "(vec \<Rightarrow> fl) \<Rightarrow> vec \<Rightarrow> mat"
  grad_cost :: "(vec \<Rightarrow> vec \<Rightarrow> fl \<Rightarrow> fl) \<Rightarrow> vec \<Rightarrow> vec \<Rightarrow> fl \<Rightarrow> vec \<times> vec"
  hessian_cost_x :: "(vec \<Rightarrow> vec \<Rightarrow> fl \<Rightarrow> fl) \<Rightarrow> vec \<Rightarrow> vec \<Rightarrow> fl \<Rightarrow> mat"
  hessian_cost_u :: "(vec \<Rightarrow> vec \<Rightarrow> fl \<Rightarrow> fl) \<Rightarrow> vec \<Rightarrow> vec \<Rightarrow> fl \<Rightarrow> mat"
  jacrev2_cost_xu :: "(vec \<Rightarrow> vec \<Rightarrow> fl \<Rightarrow> fl) \<Rightarrow> vec \<Rightarrow> vec \<Rightarrow> fl \<Rightarrow> mat"
  jacrev_dynamics :: "(vec \<Rightarrow> vec \<Rightarrow> vec) \<Rightarrow> vec \<Rightarrow> vec \<Rightarrow> mat \<times> mat"
  jacrev2_dynamics_xx :: "(vec \<Rightarrow> vec \<Rightarrow> vec) \<Rightarrow> vec \<Rightarrow> vec \<Rightarrow> tensor"
  jacrev2_dynamics_uu :: "(vec \<Rightarrow> vec \<Rightarrow> vec) \<Rightarrow> vec \<Rightarrow> vec \<Rightarrow> tensor"
  jacrev2_dynamics_xu :: "(vec \<Rightarrow> vec \<Rightarrow> vec) \<Rightarrow> vec \<Rightarrow> vec \<Rightarrow> tensor"
  solve_vec :: "mat \<Rightarrow> vec \<Rightarrow> vec"
  solve_mat :: "mat \<Rightarrow> mat \<Rightarrow> mat"
  eigh :: "mat \<Rightarrow> vec"

type_synonym stage = "vec \<times> vec \<times> mat \<times> mat \<times> mat \<times> mat \<times> mat \<times> tensor \<times> tensor \<times> tensor"

definition derivatives_body :: "jax_env \<Rightarrow> OCP \<Rightarrow> fl \<Rightarrow> vec \<Rightarrow> vec \<Rightarrow> stage" where
  \<comment> \<open>\<open>body\<close> of \<open>compute_derivatives\<close>\<close>
  "derivatives_body E ocp bp x u =
     (case grad_cost E (stage_cost ocp) x u bp of (cx_k, cu_k) \<Rightarrow>
      let cxx_k = hessian_cost_x E (stage_cost ocp) x u bp;
          cuu_k = hessian_cost_u E (stage_cost ocp) x u bp;
          cxu_k = jacrev2_cost_xu E (stage_cost ocp) x u bp
      in case jacrev_dynamics E (dynamics ocp) x u of (fx_k, fu_k) \<Rightarrow>
      let fxx_k = jacrev2_dynamics_xx E (dynamics ocp) x u;
          fuu_k = jacrev2_dynamics_uu E (dynamics ocp) x u;
          fxu_k = jacrev2_dynamics_xu E (dynamics ocp) x u
      in (cx_k, cu_k, cxx_k, cuu_k, cxu_k, fx_k, fu_k, fxx_k, fuu_k, fxu_k))"

definition compute_derivatives :: "jax_env \<Rightarrow> OCP \<Rightarrow> vec list \<Rightarrow> vec list \<Rightarrow> fl \<Rightarrow> Derivatives" where
  "compute_derivatives E ocp states controls bp =
     (let outs = map (\<lambda>(x, u). derivatives_body E ocp bp x u) (zip (butlast states) controls)
      in \<lparr> cx = map (\<lambda>(a, b, c, d, e, f, g, h, i, j). a) outs,
           cu = map (\<lambda>(a, b, c, d, e, f, g, h, i, j). b) outs,
           cxx = map (\<lambda>(a, b, c, d, e, f, g, h, i, j). c) outs,
           cuu = map (\<lambda>(a, b, c, d, e, f, g, h, i, j). d) outs,
           cxu = map (\<lambda>(a, b, c, d, e, f, g, h, i, j). e) outs,
           fx = map (\<lambda>(a, b, c, d, e, f, g, h, i, j). f) outs,
           fu = map (\<lambda>(a, b, c, d, e, f, g, h, i, j). g) outs,
           fxx = map (\<lambda>(a, b, c, d, e, f, g, h, i, j). h) outs,
           fuu = map (\<lambda>(a, b, c, d, e, f, g, h, i, j). i) outs,
           fxu = map (\<lambda>(a, b, c, d, e, f, g, h, i, j). j) outs \<rparr>)"

section \<open>Backward pass\<close>

definition stages :: "Derivatives \<Rightarrow> stage list" where
  \<comment> \<open>the per-stage tuples \<open>jax.lax.scan\<close> reads from the ten arrays it is given\<close>
  "stages d = zip (cx d) (zip (cu d) (zip (cxx d) (zip (cuu d) (zip (cxu d)
                (zip (fx d) (zip (fu d) (zip (fxx d) (zip (fuu d) (fxu d)))))))))"

type_synonym carry = "vec \<times> mat"
type_synonym stage_out = "vec \<times> mat \<times> fl \<times> bool \<times> vec"

definition bwd_body :: "jax_env \<Rightarrow> fl \<Rightarrow> carry \<Rightarrow> stage \<Rightarrow> carry \<times> stage_out" where
  \<comment> \<open>\<open>body\<close> of \<open>bwd_pass\<close>; \<open>reg_param\<close> is the scaled value of the enclosing function\<close>
  "bwd_body E reg_param carry inp =
     (case carry of (Vx, Vxx) \<Rightarrow>
      case inp of (cx_k, cu_k, cxx_k, cuu_k, cxu_k, fx_k, fu_k, fxx_k, fuu_k, fxu_k) \<Rightarrow>
      let Qx = vadd cx_k (matvec (transpose fx_k) Vx);
          Qu = vadd cu_k (matvec (transpose fu_k) Vx);
          Qxx = madd (madd cxx_k (matmul (matmul (transpose fx_k) Vxx) fx_k)) (tensordot1 Vx fxx_k);
          Qxu = madd (madd cxu_k (matmul (matmul (transpose fx_k) Vxx) fu_k)) (tensordot1 Vx fxu_k);
          Quu = madd (madd cuu_k (matmul (matmul (transpose fu_k) Vxx) fu_k)) (tensordot1 Vx fuu_k);
          Quu = madd Quu (msmul reg_param (eye (length Quu)));
          eig_vals = eigh E Quu;
          pos_def = list_all (\<lambda>e. fgt e (Fin 0)) eig_vals;
          k = vneg (solve_vec E Quu Qu);
          K = mneg (solve_mat E Quu (transpose Qxu));
          dV = dot (smul (Fin (- (1 / 2))) Qu) (solve_vec E Quu Qu);
          Vx = vsub Qx (vecmat Qu (solve_mat E Quu (transpose Qxu)));
          Vxx = msub Qxx (matmul Qxu (solve_mat E Quu (transpose Qxu)))
      in ((Vx, Vxx), (k, K, dV, pos_def, Qu)))"

definition bwd_pass ::
  "jax_env \<Rightarrow> (vec \<Rightarrow> fl) \<Rightarrow> vec \<Rightarrow> Derivatives \<Rightarrow> fl \<Rightarrow> vec list \<times> mat list \<times> fl \<times> bool \<times> vec list" where
  "bwd_pass E final_cost_fn final_state d reg_param =
     (let grad_cost_norm = norm_fro (cu d);
          reg_param = fmul reg_param grad_cost_norm;
          Vx_final = grad_final E final_cost_fn final_state;
          Vxx_final = hessian_final E final_cost_fn final_state
      in case scan_reverse (bwd_body E reg_param) (Vx_final, Vxx_final) (stages d) of (_, outs) \<Rightarrow>
      let ffgain = map (\<lambda>(k, K, dV, pos_def, Qu). k) outs;
          gain = map (\<lambda>(k, K, dV, pos_def, Qu). K) outs;
          cost_diff = map (\<lambda>(k, K, dV, pos_def, Qu). dV) outs;
          feasible_bwd_pass = map (\<lambda>(k, K, dV, pos_def, Qu). pos_def) outs;
          Hu = map (\<lambda>(k, K, dV, pos_def, Qu). Qu) outs;
          pred_reduction = fsum cost_diff;
          feasible_bwd_pass = list_all (\<lambda>b. b) feasible_bwd_pass
      in (ffgain, gain, pred_reduction, feasible_bwd_pass, Hu))"

section \<open>Forward rollout and feasibility\<close>

definition rollout_body :: "OCP \<Rightarrow> vec \<Rightarrow> mat \<times> vec \<times> vec \<times> vec \<Rightarrow> vec \<times> (vec \<times> vec)" where
  \<comment> \<open>\<open>body\<close> of \<open>nonlin_rollout\<close>\<close>
  "rollout_body ocp x_hat inp =
     (case inp of (K, k, x, u) \<Rightarrow>
      let u_hat = vadd (vadd u k) (matvec K (vsub x_hat x));
          next_x_hat = dynamics ocp x_hat u_hat
      in (next_x_hat, (x_hat, u_hat)))"

definition nonlin_rollout ::
  "OCP \<Rightarrow> mat list \<Rightarrow> vec list \<Rightarrow> vec list \<Rightarrow> vec list \<Rightarrow> error + (vec list \<times> vec list)" where
  "nonlin_rollout ocp gain ffgain nominal_states nominal_controls =
     (case first_row nominal_states of Inl e \<Rightarrow> Inl e | Inr x0 \<Rightarrow>
      case scan (rollout_body ocp) x0
             (zip gain (zip ffgain (zip (butlast nominal_states) nominal_controls))) of
        (new_final_state, outs) \<Rightarrow>
          let new_states = map fst outs;
              new_controls = map snd outs;
              new_states = new_states @ [new_final_state]
          in Inr (new_states, new_controls))"

definition check_feasibility :: "OCP \<Rightarrow> vec list \<Rightarrow> vec list \<Rightarrow> bool" where
  "check_feasibility ocp x u =
     (let cons = map (\<lambda>(x_k, u_k). constraints ocp x_k u_k) (zip (butlast x) u)
      in list_all (\<lambda>c. fle c (Fin 0)) (concat cons))"

section \<open>Newton loop\<close>

type_synonym inner_val = "vec list \<times> vec list \<times> bool \<times> fl \<times> fl \<times> fl \<times> int"
type_synonym val = "vec list \<times> vec list \<times> int \<times> fl \<times> fl \<times> fl"

definition candidate_cost :: "OCP \<Rightarrow> fl \<Rightarrow> vec list \<Rightarrow> vec list \<Rightarrow> fl" where
  \<comment> \<open>\<open>new_cost\<close> of \<open>while_inner_loop\<close> (lines 121 to 125)\<close>
  "candidate_cost ocp barrier_param temp_x temp_u =
     (if check_feasibility ocp temp_x temp_u then total_cost ocp temp_x temp_u barrier_param
      else PInf)"

definition acceptance :: "fl \<Rightarrow> fl \<Rightarrow> fl \<Rightarrow> bool \<Rightarrow> fl \<times> bool" where
  \<comment> \<open>\<open>gain_ratio\<close> and \<open>succesful_minimzation\<close> of \<open>while_inner_loop\<close> (lines 126 to 128)\<close>
  "acceptance new_cost cost pred_reduction feasible_bwd_pass =
     (let actual_reduction = fsub new_cost cost;
          gain_ratio = fdiv actual_reduction pred_reduction;
          succesful_minimzation = (fgt gain_ratio (Fin 0) \<and> feasible_bwd_pass)
      in (gain_ratio, succesful_minimzation))"

definition update_regularization :: "bool \<Rightarrow> fl \<Rightarrow> fl \<Rightarrow> fl \<Rightarrow> fl \<Rightarrow> fl \<times> fl" where
  \<comment> \<open>the new \<open>rp\<close> and \<open>r_inc\<close> of \<open>while_inner_loop\<close> (lines 129 to 135); \<open>reg_inc\<close> is
      the variable of the enclosing \<open>while_body\<close>\<close>
  "update_regularization succesful_minimzation gain_ratio rp r_inc reg_inc =
     (let rp = (if succesful_minimzation
                then fmul rp (fmaximum (Fin (1 / 3))
                       (fsub (Fin 1) (fpow3 (fsub (fmul (Fin 2) gain_ratio) (Fin 1)))))
                else fmul rp reg_inc);
          r_inc = (if succesful_minimzation then Fin 2 else fmul (Fin 2) r_inc);
          rp = clip rp (Fin (1 / 10 ^ 16)) (Fin (10 ^ 16))
      in (rp, r_inc))"

definition while_inner_loop ::
  "jax_env \<Rightarrow> OCP \<Rightarrow> fl \<Rightarrow> vec list \<Rightarrow> vec list \<Rightarrow> fl \<Rightarrow> Derivatives \<Rightarrow> fl \<Rightarrow> inner_val
     \<Rightarrow> error + inner_val" where
  \<comment> \<open>\<open>x\<close>, \<open>u\<close>, \<open>cost\<close>, \<open>derivatives\<close> and \<open>reg_inc\<close> are the variables of the enclosing
      \<open>while_body\<close> that the closure reads\<close>
  "while_inner_loop E ocp barrier_param x u cost derivatives reg_inc inner_val =
     (case inner_val of (_, _, _, _, rp, r_inc, inner_it_counter) \<Rightarrow>
      case last_row x of Inl e \<Rightarrow> Inl e | Inr x_last \<Rightarrow>
      case bwd_pass E (final_cost ocp) x_last derivatives rp of
        (ffgain, gain, pred_reduction, feasible_bwd_pass, Hu) \<Rightarrow>
      case nonlin_rollout ocp gain ffgain x u of Inl e \<Rightarrow> Inl e | Inr (temp_x, temp_u) \<Rightarrow>
      case jnp_max (map fabs (concat Hu)) of Inl e \<Rightarrow> Inl e | Inr Hu_norm \<Rightarrow>
      let new_cost = candidate_cost ocp barrier_param temp_x temp_u
      in case acceptance new_cost cost pred_reduction feasible_bwd_pass of
        (gain_ratio, succesful_minimzation) \<Rightarrow>
      case update_regularization succesful_minimzation gain_ratio rp r_inc reg_inc of
        (rp, r_inc) \<Rightarrow>
      let inner_it_counter = inner_it_counter + 1
      in Inr (temp_x, temp_u, succesful_minimzation, Hu_norm, rp, r_inc, inner_it_counter))"

definition while_inner_cond :: "inner_val \<Rightarrow> bool" where
  "while_inner_cond inner_val =
     (case inner_val of (_, _, succesful_minimzation, _, _, _, inner_it_counter) \<Rightarrow>
      let exit_cond = (succesful_minimzation \<or> inner_it_counter > 500)
      in \<not> exit_cond)"

definition inner_counter :: "inner_val \<Rightarrow> int" where
  "inner_counter inner_val = (case inner_val of (_, _, _, _, _, _, inner_it_counter) \<Rightarrow> inner_it_counter)"

lemma while_inner_loop_counter:
  "while_inner_loop E ocp bp x u cost d reg_inc v = Inr v' \<Longrightarrow> inner_counter v' = inner_counter v + 1"
  by (auto simp: while_inner_loop_def inner_counter_def Let_def split: prod.splits sum.splits)

function while_inner ::
  "jax_env \<Rightarrow> OCP \<Rightarrow> fl \<Rightarrow> vec list \<Rightarrow> vec list \<Rightarrow> fl \<Rightarrow> Derivatives \<Rightarrow> fl \<Rightarrow> inner_val
     \<Rightarrow> error + inner_val" where
  \<comment> \<open>\<open>lax.while_loop(while_inner_cond, while_inner_loop, ...)\<close>\<close>
  "while_inner E ocp barrier_param x u cost derivatives reg_inc inner_val =
     (if while_inner_cond inner_val
      then (case while_inner_loop E ocp barrier_param x u cost derivatives reg_inc inner_val of
              Inl e \<Rightarrow> Inl e
            | Inr inner_val' \<Rightarrow> while_inner E ocp barrier_param x u cost derivatives reg_inc inner_val')
      else Inr inner_val)"
  by pat_completeness auto
termination
proof (relation "measure (\<lambda>(E, ocp, bp, x, u, cost, d, reg_inc, v). nat (501 - inner_counter v))")
  show "wf (measure (\<lambda>(E, ocp, bp, x, u, cost, d, reg_inc, v). nat (501 - inner_counter v)))"
    by simp
next
  fix E ocp barrier_param x u cost derivatives reg_inc and inner_val inner_val' :: inner_val
  assume c: "while_inner_cond inner_val"
    and s: "while_inner_loop E ocp barrier_param x u cost derivatives reg_inc inner_val = Inr inner_val'"
  have "inner_counter inner_val \<le> 500"
    using c by (auto simp: while_inner_cond_def inner_counter_def split: prod.splits)
  moreover have "inner_counter inner_val' = inner_counter inner_val + 1"
    using s by (rule while_inner_loop_counter)
  ultimately show "((E, ocp, barrier_param, x, u, cost, derivatives, reg_inc, inner_val'),
                    (E, ocp, barrier_param, x, u, cost, derivatives, reg_inc, inner_val))
      \<in> measure (\<lambda>(E, ocp, bp, x, u, cost, d, reg_inc, v). nat (501 - inner_counter v))"
    by simp
qed

declare while_inner.simps [simp del]

definition while_body :: "jax_env \<Rightarrow> OCP \<Rightarrow> fl \<Rightarrow> val \<Rightarrow> error + val" where
  \<comment> \<open>\<open>while_body\<close> of \<open>ddp\<close>\<close>
  "while_body E ocp barrier_param val =
     (case val of (x, u, iterations, reg_param, reg_inc, _) \<Rightarrow>
      let cost = total_cost ocp x u barrier_param;
          derivatives = compute_derivatives E ocp x u barrier_param
      in case while_inner E ocp barrier_param x u cost derivatives reg_inc
                (x, u, False, Fin 0, reg_param, reg_inc, 0) of
           Inl e \<Rightarrow> Inl e
         | Inr (x', u', _, Hamiltonian_norm, reg_param', reg_inc', _) \<Rightarrow>
             let iterations = iterations + 1
             in Inr (x', u', iterations, reg_param', reg_inc', Hamiltonian_norm))"

definition while_cond :: "val \<Rightarrow> bool" where
  \<comment> \<open>\<open>while_cond\<close> of \<open>ddp\<close>\<close>
  "while_cond val =
     (case val of (_, _, iterations, _, _, Hu_norm) \<Rightarrow>
      let exit_cond = (flt Hu_norm (Fin (1 / 10 ^ 4)) \<or> iterations > 500)
      in \<not> exit_cond)"

definition iterations_of :: "val \<Rightarrow> int" where
  "iterations_of val = (case val of (_, _, iterations, _, _, _) \<Rightarrow> iterations)"

lemma while_body_iterations:
  "while_body E ocp bp v = Inr v' \<Longrightarrow> iterations_of v' = iterations_of v + 1"
  by (auto simp: while_body_def iterations_of_def Let_def split: prod.splits sum.splits)

function ddp_while :: "jax_env \<Rightarrow> OCP \<Rightarrow> fl \<Rightarrow> val \<Rightarrow> error + val" where
  \<comment> \<open>\<open>lax.while_loop(while_cond, while_body, ...)\<close> of \<open>ddp\<close>\<close>
  "ddp_while E ocp barrier_param val =
     (if while_cond val
      then (case while_body E ocp barrier_param val of
              Inl e \<Rightarrow> Inl e
            | Inr val' \<Rightarrow> ddp_while E ocp barrier_param val')
      else Inr val)"
  by pat_completeness auto
termination
proof (relation "measure (\<lambda>(E, ocp, bp, v). nat (501 - iterations_of v))")
  show "wf (measure (\<lambda>(E, ocp, bp, v). nat (501 - iterations_of v)))"
    by simp
next
  fix E ocp barrier_param and val val' :: val
  assume c: "while_cond val"
    and s: "while_body E ocp barrier_param val = Inr val'"
  have "iterations_of val \<le> 500"
    using c by (auto simp: while_cond_def iterations_of_def split: prod.splits)
  moreover have "iterations_of val' = iterations_of val + 1"
    using s by (rule while_body_iterations)
  ultimately show "((E, ocp, barrier_param, val'), (E, ocp, barrier_param, val))
      \<in> measure (\<lambda>(E, ocp, bp, v). nat (501 - iterations_of v))"
    by simp
qed

declare ddp_while.simps [simp del]

definition ddp :: "jax_env \<Rightarrow> OCP \<Rightarrow> vec list \<Rightarrow> vec \<Rightarrow> fl \<Rightarrow> error + (vec list \<times> vec list \<times> int)" where
  "ddp E ocp controls initial_state barrier_param =
     (let states = rollout (dynamics ocp) controls initial_state;
          initial_reg_param = Fin 1;
          initial_reg_inc = Fin 2
      in case ddp_while E ocp barrier_param
                (states, controls, 0, initial_reg_param, initial_reg_inc, Fin 1) of
           Inl e \<Rightarrow> Inl e
         | Inr (opt_states, opt_controls, total_iterations, _, _, _) \<Rightarrow>
             Inr (opt_states, opt_controls, total_iterations))"

section \<open>Interior-point continuation\<close>

type_synonym ip_val = "vec list \<times> fl \<times> int"

definition ip_while_body :: "jax_env \<Rightarrow> OCP \<Rightarrow> vec \<Rightarrow> ip_val \<Rightarrow> error + ip_val" where
  \<comment> \<open>\<open>while_body\<close> of \<open>interior_point_ddp\<close>\<close>
  "ip_while_body E ocp initial_state val =
     (case val of (u, bp, t) \<Rightarrow>
      case ddp E ocp u initial_state bp of
        Inl e \<Rightarrow> Inl e
      | Inr (_, u', newton_iterations) \<Rightarrow>
          let bp = fdiv bp (Fin 5);
              t = t + newton_iterations
          in Inr (u', bp, t))"

definition ip_while_cond :: "ip_val \<Rightarrow> bool" where
  \<comment> \<open>\<open>while_cond\<close> of \<open>interior_point_ddp\<close>\<close>
  "ip_while_cond val = (case val of (_, bp, _) \<Rightarrow> fgt bp (Fin (1 / 10 ^ 4)))"

partial_function (option) ip_while :: "jax_env \<Rightarrow> OCP \<Rightarrow> vec \<Rightarrow> ip_val \<Rightarrow> (error + ip_val) option" where
  \<comment> \<open>\<open>lax.while_loop(while_cond, while_body, ...)\<close> of \<open>interior_point_ddp\<close>; a loop
      that does not end is \<open>None\<close>\<close>
  "ip_while E ocp initial_state val =
     (if ip_while_cond val
      then (case ip_while_body E ocp initial_state val of
              Inl e \<Rightarrow> Some (Inl e)
            | Inr val' \<Rightarrow> ip_while E ocp initial_state val')
      else Some (Inr val))"

definition interior_point_ddp ::
  "jax_env \<Rightarrow> OCP \<Rightarrow> vec list \<Rightarrow> vec \<Rightarrow> (error + (vec list \<times> int)) option" where
  "interior_point_ddp E ocp controls initial_state =
     (let barrier_param = Fin (1 / 10)
      in case ip_while E ocp initial_state (controls, barrier_param, 0) of
           None \<Rightarrow> None
         | Some (Inl e) \<Rightarrow> Some (Inl e)
         | Some (Inr (opt_u, _, N_iterations)) \<Rightarrow> Some (Inr (opt_u, N_iterations)))"

section \<open>The backward pass as a recursion on the stage index\<close>












section \<open>Further definitions used in the statements\<close>

definition feedback_control :: "mat \<Rightarrow> vec \<Rightarrow> vec \<Rightarrow> vec \<Rightarrow> vec \<Rightarrow> vec" where
  \<comment> \<open>the affine feedback law \<open>u + k + K (x_hat - x)\<close>\<close>
  "feedback_control K k x u x_hat = vadd (vadd u k) (matvec K (vsub x_hat x))"

primrec newton_chain ::
  "jax_env \<Rightarrow> OCP \<Rightarrow> vec \<Rightarrow> fl list \<Rightarrow> vec list \<times> int \<Rightarrow> error + (vec list \<times> int)" where
  \<comment> \<open>one Newton Loop per barrier parameter of the list, each started from the controls
      the previous one returned, the iteration counts added up\<close>
  "newton_chain E ocp initial_state [] acc = Inr acc"
| "newton_chain E ocp initial_state (bp # bps) acc =
     (case ddp E ocp (fst acc) initial_state bp of
        Inl e \<Rightarrow> Inl e
      | Inr (_, u', n) \<Rightarrow> newton_chain E ocp initial_state bps (u', snd acc + n))"

definition barrier_schedule :: "fl list" where
  \<comment> \<open>\<open>0.1\<close> divided by \<open>5\<close> after each step, for \<open>ceil(log5(0.1 / 1e-4))\<close> steps\<close>
  "barrier_schedule =
     map (\<lambda>j. Fin ((1 / 10) / 5 ^ j)) [0..<nat \<lceil>log 5 ((1 / 10) / (1 / 10 ^ 4))\<rceil>]"

text \<open>
  The states the two loops of \<open>ddp\<close> pass through: \<open>newton_reach\<close> holds of the values of
  the outer loop (the initial one, and each one \<open>while_body\<close> returns while \<open>while_cond\<close>
  holds), \<open>inner_reach\<close> of the values of the inner loop started by an outer value (the
  initial one, and each one \<open>while_inner_loop\<close> returns while \<open>while_inner_cond\<close> holds).
\<close>

definition within_bounds :: "fl \<Rightarrow> bool" where
  "within_bounds rp = (fle (Fin (1 / 10 ^ 16)) rp \<and> fle rp (Fin (10 ^ 16)))"

inductive newton_reach :: "jax_env \<Rightarrow> OCP \<Rightarrow> vec list \<Rightarrow> vec \<Rightarrow> fl \<Rightarrow> val \<Rightarrow> bool"
  for E ocp controls initial_state barrier_param where
  start: "newton_reach E ocp controls initial_state barrier_param
            (rollout (dynamics ocp) controls initial_state, controls, 0, Fin 1, Fin 2, Fin 1)"
| iterate: "newton_reach E ocp controls initial_state barrier_param val \<Longrightarrow>
            while_cond val \<Longrightarrow>
            while_body E ocp barrier_param val = Inr val' \<Longrightarrow>
            newton_reach E ocp controls initial_state barrier_param val'"

inductive inner_reach :: "jax_env \<Rightarrow> OCP \<Rightarrow> vec list \<Rightarrow> vec \<Rightarrow> fl \<Rightarrow> val \<Rightarrow> inner_val \<Rightarrow> bool"
  for E ocp controls initial_state barrier_param where
  enter: "newton_reach E ocp controls initial_state barrier_param (x, u, iterations, reg_param, reg_inc, h) \<Longrightarrow>
          while_cond (x, u, iterations, reg_param, reg_inc, h) \<Longrightarrow>
          inner_reach E ocp controls initial_state barrier_param
            (x, u, iterations, reg_param, reg_inc, h) (x, u, False, Fin 0, reg_param, reg_inc, 0)"
| update: "inner_reach E ocp controls initial_state barrier_param
            (x, u, iterations, reg_param, reg_inc, h) inner_val \<Longrightarrow>
           while_inner_cond inner_val \<Longrightarrow>
           while_inner_loop E ocp barrier_param x u (total_cost ocp x u barrier_param)
             (compute_derivatives E ocp x u barrier_param) reg_inc inner_val = Inr inner_val' \<Longrightarrow>
           inner_reach E ocp controls initial_state barrier_param
            (x, u, iterations, reg_param, reg_inc, h) inner_val'"

definition reg_of :: "inner_val \<Rightarrow> fl" where
  "reg_of inner_val = (case inner_val of (_, _, _, _, rp, _, _) \<Rightarrow> rp)"

definition reg_inc_of :: "inner_val \<Rightarrow> fl" where
  "reg_inc_of inner_val = (case inner_val of (_, _, _, _, _, r_inc, _) \<Rightarrow> r_inc)"

definition newton_reg_ok :: "val \<Rightarrow> bool" where
  "newton_reg_ok val = (case val of (_, _, _, reg_param, reg_inc, _) \<Rightarrow>
     within_bounds reg_param \<and> flt (Fin 0) reg_inc)"

text \<open>
  A problem with one state, one control and one stage, for concrete runs: dynamics
  \<open>x + u\<close>, the constraint \<open>u - 1/2 \<le> 0\<close>, final cost \<open>c x\<close> with \<open>c = 1e-5\<close>, and the stage
  cost \<open>- 2 bp u - (2 bp + c/2) u\<^sup>2 - bp log(1/2 - u)\<close>, a concave cost with the log-barrier
  of the constraint. At \<open>u = 0\<close> its gradient in \<open>u\<close> is \<open>0\<close> and its Hessian in \<open>u\<close> is \<open>- c\<close>.
  \<open>jax_hill\<close> gives the JAX functions on it: the derivatives of its cost and dynamics,
  and the solver and the eigenvalue of a matrix with one entry.
\<close>

fun flog :: "fl \<Rightarrow> fl" where
  \<comment> \<open>\<open>jnp.log\<close>\<close>
  "flog (Fin a) = (if 0 < a then Fin (ln a) else if a = 0 then NInf else NaN)"
| "flog PInf = PInf"
| "flog NInf = NaN"
| "flog NaN = NaN"

definition hill_stage_cost :: "vec \<Rightarrow> vec \<Rightarrow> fl \<Rightarrow> fl" where
  "hill_stage_cost x u bp =
     fsub (fadd (fmul (fmul (Fin (- 2)) bp) (fsum u))
                (fmul (fneg (fadd (fmul (Fin 2) bp) (Fin (1 / 2 / 10 ^ 5)))) (dot u u)))
          (fmul bp (fsum (map (\<lambda>g. flog (fneg g)) (map (\<lambda>a. fsub a (Fin (1 / 2))) u))))"

definition hill_final_cost :: "vec \<Rightarrow> fl" where
  "hill_final_cost x = fmul (Fin (1 / 10 ^ 5)) (fsum x)"

definition ocp_hill :: OCP where
  "ocp_hill = \<lparr> dynamics = (\<lambda>x u. vadd x u),
                constraints = (\<lambda>x u. map (\<lambda>a. fsub a (Fin (1 / 2))) u),
                stage_cost = hill_stage_cost,
                final_cost = hill_final_cost,
                total_cost = (\<lambda>xs us bp.
                   fadd (hill_final_cost (last xs))
                     (fsum (map (\<lambda>(x, u). hill_stage_cost x u bp) (zip (butlast xs) us)))) \<rparr>"

definition jax_hill :: jax_env where
  "jax_hill = \<lparr> grad_final = (\<lambda>f x. [Fin (1 / 10 ^ 5)]),
                hessian_final = (\<lambda>f x. [[Fin 0]]),
                grad_cost = (\<lambda>f x u bp. ([Fin 0],
                   map (\<lambda>a. fadd (fadd (fmul (Fin (- 2)) bp)
                                       (fmul (fneg (fadd (fmul (Fin 4) bp) (Fin (1 / 10 ^ 5)))) a))
                                 (fdiv bp (fsub (Fin (1 / 2)) a))) u)),
                hessian_cost_x = (\<lambda>f x u bp. [[Fin 0]]),
                hessian_cost_u = (\<lambda>f x u bp.
                   [map (\<lambda>a. fadd (fneg (fadd (fmul (Fin 4) bp) (Fin (1 / 10 ^ 5))))
                                 (fdiv bp (fmul (fsub (Fin (1 / 2)) a) (fsub (Fin (1 / 2)) a)))) u]),
                jacrev2_cost_xu = (\<lambda>f x u bp. [[Fin 0]]),
                jacrev_dynamics = (\<lambda>f x u. ([[Fin 1]], [[Fin 1]])),
                jacrev2_dynamics_xx = (\<lambda>f x u. [[[Fin 0]]]),
                jacrev2_dynamics_uu = (\<lambda>f x u. [[[Fin 0]]]),
                jacrev2_dynamics_xu = (\<lambda>f x u. [[[Fin 0]]]),
                solve_vec = (\<lambda>A b. map (\<lambda>b_i. fdiv b_i (hd (hd A))) b),
                solve_mat = (\<lambda>A B. map (map (\<lambda>b_ij. fdiv b_ij (hd (hd A)))) B),
                eigh = (\<lambda>A. [hd (hd A)]) \<rparr>"



text \<open>
  A second problem with one state, one control and one stage: dynamics \<open>x + u\<close>, the
  constraint \<open>u - 1/2 \<le> 0\<close>, stage cost \<open>u\<^sup>2 / 2\<close> and final cost \<open>(x - 1/4)\<^sup>2 / 2\<close>, with the
  JAX functions on it.
\<close>

definition ocp_bowl :: OCP where
  "ocp_bowl = \<lparr> dynamics = (\<lambda>x u. vadd x u),
                constraints = (\<lambda>x u. map (\<lambda>a. fsub a (Fin (1 / 2))) u),
                stage_cost = (\<lambda>x u bp. fmul (Fin (1 / 2)) (dot u u)),
                final_cost = (\<lambda>x. fmul (Fin (1 / 2)) (dot (vsub x [Fin (1 / 4)]) (vsub x [Fin (1 / 4)]))),
                total_cost = (\<lambda>xs us bp.
                   fadd (fmul (Fin (1 / 2)) (dot (vsub (last xs) [Fin (1 / 4)]) (vsub (last xs) [Fin (1 / 4)])))
                     (fsum (map (\<lambda>u. fmul (Fin (1 / 2)) (dot u u)) us))) \<rparr>"



section \<open>Properties of the backward pass\<close>







lemma length_scan: "length (snd (scan f c as)) = length as"
proof (induction as arbitrary: c)
  case Nil
  then show ?case by simp
next
  case (Cons a as)
  obtain c' b where f: "f c a = (c', b)" by (cases "f c a")
  obtain c'' bs where s: "scan f c' as = (c'', bs)" by (cases "scan f c' as")
  from Cons [of c'] s have "length bs = length as" by simp
  with f s show ?case by simp
qed




section \<open>Forward rollout\<close>

lemma scan_rollout_body:
  assumes "scan (rollout_body ocp) c inps = (cf, outs)"
  shows "length outs = length inps \<and> (map fst outs @ [cf]) ! 0 = c \<and>
         (\<forall>k<length inps.
            snd (outs ! k) =
              (case inps ! k of (K, kk, x, u) \<Rightarrow> feedback_control K kk x u ((map fst outs @ [cf]) ! k)) \<and>
            (map fst outs @ [cf]) ! Suc k = dynamics ocp ((map fst outs @ [cf]) ! k) (snd (outs ! k)))"
  using assms
proof (induction inps arbitrary: c cf outs)
  case Nil
  then show ?case by simp
next
  case (Cons a inps)
  obtain K kk x u where a: "a = (K, kk, x, u)" by (cases a) auto
  define u_hat where "u_hat = feedback_control K kk x u c"
  define c' where "c' = dynamics ocp c u_hat"
  obtain cf' outs' where s: "scan (rollout_body ocp) c' inps = (cf', outs')"
    by (cases "scan (rollout_body ocp) c' inps")
  have step: "rollout_body ocp c a = (c', (c, u_hat))"
    by (simp add: rollout_body_def a u_hat_def c'_def feedback_control_def Let_def)
  from Cons.prems step s have cf: "cf = cf'" and outs: "outs = (c, u_hat) # outs'"
    by simp_all
  note IH = Cons.IH [OF s]
  have len: "length outs = length (a # inps)" using IH outs by simp
  have hd0: "(map fst outs @ [cf]) ! 0 = c" using outs by simp
  have "\<forall>k<length (a # inps).
            snd (outs ! k) =
              (case (a # inps) ! k of (K, kk, x, u) \<Rightarrow> feedback_control K kk x u ((map fst outs @ [cf]) ! k)) \<and>
            (map fst outs @ [cf]) ! Suc k = dynamics ocp ((map fst outs @ [cf]) ! k) (snd (outs ! k))"
  proof (intro allI impI)
    fix k assume k: "k < length (a # inps)"
    show "snd (outs ! k) =
              (case (a # inps) ! k of (K, kk, x, u) \<Rightarrow> feedback_control K kk x u ((map fst outs @ [cf]) ! k)) \<and>
            (map fst outs @ [cf]) ! Suc k = dynamics ocp ((map fst outs @ [cf]) ! k) (snd (outs ! k))"
    proof (cases k)
      case 0
      then show ?thesis using IH outs cf a by (simp add: u_hat_def c'_def)
    next
      case (Suc j)
      then have "j < length inps" using k by simp
      then show ?thesis using IH outs cf Suc by simp
    qed
  qed
  with len hd0 show ?case by blast
qed

text \<open>
  C7. For every nominal trajectory of \<open>N + 1\<close> states and \<open>N\<close> controls and every gain
  sequence of length \<open>N\<close>, the forward rollout returns a candidate of the same shape with
  \<open>state_hat[0] = state[0]\<close>, \<open>control_hat[k] = control[k] + k[k] + K[k] (state_hat[k] - state[k])\<close>
  and \<open>state_hat[k+1] = dynamics(state_hat[k], control_hat[k])\<close> for \<open>k = 0..N-1\<close>.
\<close>

theorem nonlin_rollout_feedback_law:
  assumes "length gain = N" and "length ffgain = N"
    and "length nominal_controls = N" and "length nominal_states = N + 1"
  shows "\<exists>new_states new_controls.
           nonlin_rollout ocp gain ffgain nominal_states nominal_controls = Inr (new_states, new_controls) \<and>
           length new_states = length nominal_states \<and>
           length new_controls = length nominal_controls \<and>
           new_states ! 0 = nominal_states ! 0 \<and>
           (\<forall>k<N.
              new_controls ! k =
                vadd (vadd (nominal_controls ! k) (ffgain ! k))
                  (matvec (gain ! k) (vsub (new_states ! k) (nominal_states ! k))) \<and>
              new_states ! (k + 1) = dynamics ocp (new_states ! k) (new_controls ! k))"
proof -
  obtain x0 rest where ns: "nominal_states = x0 # rest"
    using assms(4) by (cases nominal_states) auto
  define inps where "inps = zip gain (zip ffgain (zip (butlast nominal_states) nominal_controls))"
  have len_inps: "length inps = N"
    using assms by (simp add: inps_def)
  have nth_inps: "inps ! k = (gain ! k, ffgain ! k, nominal_states ! k, nominal_controls ! k)"
    if "k < N" for k
    using that assms by (simp add: inps_def nth_butlast)
  obtain cf outs where s: "scan (rollout_body ocp) x0 inps = (cf, outs)"
    by (cases "scan (rollout_body ocp) x0 inps")
  note R = scan_rollout_body [OF s]
  define new_states where "new_states = map fst outs @ [cf]"
  define new_controls where "new_controls = map snd outs"
  have fr: "first_row nominal_states = Inr x0"
    by (simp add: first_row_def ns)
  have res: "nonlin_rollout ocp gain ffgain nominal_states nominal_controls = Inr (new_states, new_controls)"
    unfolding nonlin_rollout_def fr inps_def [symmetric] new_states_def new_controls_def
    using s by (simp add: Let_def)
  have l1: "length new_states = length nominal_states"
    using R len_inps assms by (simp add: new_states_def)
  have l2: "length new_controls = length nominal_controls"
    using R len_inps assms by (simp add: new_controls_def)
  have h0: "new_states ! 0 = nominal_states ! 0"
    using R by (simp add: new_states_def ns)
  have steps: "new_controls ! k =
                vadd (vadd (nominal_controls ! k) (ffgain ! k))
                  (matvec (gain ! k) (vsub (new_states ! k) (nominal_states ! k))) \<and>
              new_states ! (k + 1) = dynamics ocp (new_states ! k) (new_controls ! k)"
    if "k < N" for k
  proof -
    have k: "k < length inps" using that len_inps by simp
    then have ko: "k < length outs" using R by simp
    from R k have "snd (outs ! k) =
              (case inps ! k of (K, kk, x, u) \<Rightarrow> feedback_control K kk x u (new_states ! k))"
      and "new_states ! Suc k = dynamics ocp (new_states ! k) (snd (outs ! k))"
      by (simp_all add: new_states_def)
    then show ?thesis
      using ko that by (simp add: nth_inps new_controls_def feedback_control_def)
  qed
  show ?thesis
    using res l1 l2 h0 steps by blast
qed

theorem nonlin_rollout_feedback_law_witness:
  "nonlin_rollout ocp_hill [[[Fin 2]]] [[Fin 1]] [[Fin 0], [Fin 0]] [[Fin 0]]
     = Inr ([[Fin 0], [Fin 1]], [[Fin 1]])"
proof -
  have "\<exists>new_states new_controls.
           nonlin_rollout ocp_hill [[[Fin 2]]] [[Fin 1]] [[Fin 0], [Fin 0]] [[Fin 0]] = Inr (new_states, new_controls) \<and>
           length new_states = length [[Fin 0], [Fin 0 :: fl]] \<and>
           length new_controls = length [[Fin 0 :: fl]] \<and>
           new_states ! 0 = [[Fin 0], [Fin 0]] ! 0 \<and>
           (\<forall>k<1.
              new_controls ! k =
                vadd (vadd ([[Fin 0]] ! k) ([[Fin 1]] ! k))
                  (matvec ([[[Fin 2]]] ! k) (vsub (new_states ! k) ([[Fin 0], [Fin 0]] ! k))) \<and>
              new_states ! (k + 1) = dynamics ocp_hill (new_states ! k) (new_controls ! k))"
    by (rule nonlin_rollout_feedback_law) simp_all
  then obtain ns nc where
    r: "nonlin_rollout ocp_hill [[[Fin 2]]] [[Fin 1]] [[Fin 0], [Fin 0]] [[Fin 0]] = Inr (ns, nc)"
    and l: "length ns = 2" "length nc = 1"
    and h: "ns ! 0 = [Fin 0]"
    and c: "nc ! 0 = vadd (vadd [Fin 0] [Fin 1]) (matvec [[Fin 2]] (vsub (ns ! 0) [Fin 0]))"
    and d: "ns ! 1 = dynamics ocp_hill (ns ! 0) (nc ! 0)"
    by auto
  have nc0: "nc ! 0 = [Fin 1]"
    using c h by (simp add: vadd_def vsub_def matvec_def dot_def fsum_def fsub_def)
  have ns1: "ns ! 1 = [Fin 1]"
    using d h nc0 by (simp add: ocp_hill_def vadd_def)
  have "nc = [[Fin 1]]"
    using l nc0 by (cases nc) auto
  moreover have "ns = [[Fin 0], [Fin 1]]"
    using l h ns1 by (cases ns; cases "tl ns") auto
  ultimately show ?thesis using r by simp
qed

section \<open>Feasibility check and continuation\<close>

lemma list_all_zip_nth:
  "list_all P (zip xs ys) = list_all (\<lambda>k. P (xs ! k, ys ! k)) [0..<min (length xs) (length ys)]"
  by (fastforce simp: list_all_iff set_zip)

lemma list_all_concat_map:
  "list_all P (concat (map f zs)) = list_all (\<lambda>z. list_all P (f z)) zs"
  by (auto simp: list_all_iff)

text \<open>
  C10. The feasibility predicate evaluates the constraints at the pairs
  \<open>(state[k], control[k])\<close> for \<open>k = 0..N-1\<close> only: its result, and with it the choice between
  the total cost and \<open>+inf\<close> for the candidate, does not change when the terminal state
  alone is replaced.
\<close>

theorem check_feasibility_stage_pairs_only:
  "check_feasibility ocp (xs @ [xN]) us =
     list_all (\<lambda>k. list_all (\<lambda>c. fle c (Fin 0)) (constraints ocp (xs ! k) (us ! k)))
       [0..<min (length xs) (length us)]
   \<and> check_feasibility ocp (xs @ [xN']) us = check_feasibility ocp (xs @ [xN]) us
   \<and> candidate_cost ocp bp (xs @ [xN']) us =
       (if check_feasibility ocp (xs @ [xN]) us then total_cost ocp (xs @ [xN']) us bp else PInf)"
  by (simp add: check_feasibility_def candidate_cost_def Let_def list_all_concat_map
      list_all_zip_nth)

lemma continuation_steps: "nat \<lceil>log 5 ((1 / 10) / (1 / 10 ^ 4))\<rceil> = 5"
proof -
  have e: "(1 / 10) / (1 / 10 ^ 4) = (1000 :: real)" by simp
  have "4 < log 5 (1000 :: real)"
    by (subst less_log_iff) simp_all
  moreover have "log 5 (1000 :: real) \<le> 5"
    by (subst log_le_iff) simp_all
  ultimately have "\<lceil>log 5 (1000 :: real)\<rceil> = 5"
    by (intro ceiling_unique) simp_all
  then show ?thesis by (simp only: e)
qed

lemma barrier_schedule_eq:
  "barrier_schedule = [Fin (1 / 10), Fin (1 / 50), Fin (1 / 250), Fin (1 / 1250), Fin (1 / 6250)]"
proof -
  have "[0..<5] = [0, 1, 2, 3, 4 :: nat]"
    by (simp add: upt_rec)
  then show ?thesis
    unfolding barrier_schedule_def continuation_steps by simp
qed

lemma ip_while_step:
  "ip_while E ocp x0 (u, Fin b, t) =
     (if 1 / 10 ^ 4 < b
      then (case ddp E ocp u x0 (Fin b) of
              Inl e \<Rightarrow> Some (Inl e)
            | Inr (_, u', n) \<Rightarrow> ip_while E ocp x0 (u', Fin (b / 5), t + n))
      else Some (Inr (u, Fin b, t)))"
  by (subst ip_while.simps)
     (simp add: ip_while_cond_def ip_while_body_def fgt_def Let_def split: sum.splits prod.splits)

text \<open>
  C3. The interior-point continuation starts from the barrier parameter \<open>0.1\<close>, runs the
  Newton Loop at the current barrier parameter from the controls the previous run
  returned, divides the barrier parameter by \<open>5\<close>, adds up the iteration counts and stops
  as soon as the barrier parameter is at most \<open>1e-4\<close>: it runs the Newton Loop exactly
  \<open>ceil(log5(0.1 / 1e-4)) = 5\<close> times and returns the last controls and the total count.
\<close>

theorem interior_point_ddp_five_newton_loops:
  "interior_point_ddp E ocp controls initial_state =
     Some (newton_chain E ocp initial_state barrier_schedule (controls, 0))
   \<and> barrier_schedule = [Fin (1 / 10), Fin (1 / 50), Fin (1 / 250), Fin (1 / 1250), Fin (1 / 6250)]
   \<and> length barrier_schedule = nat \<lceil>log 5 ((1 / 10) / (1 / 10 ^ 4))\<rceil>"
proof -
  have "ip_while E ocp initial_state (controls, Fin (1 / 10), 0) =
        (case newton_chain E ocp initial_state barrier_schedule (controls, 0) of
           Inl e \<Rightarrow> Some (Inl e)
         | Inr (u, t) \<Rightarrow> Some (Inr (u, Fin (1 / 31250), t)))"
    by (simp add: barrier_schedule_eq ip_while_step split: sum.splits prod.splits)
  then have "interior_point_ddp E ocp controls initial_state =
     Some (newton_chain E ocp initial_state barrier_schedule (controls, 0))"
    by (simp add: interior_point_ddp_def Let_def split: sum.splits prod.splits)
  moreover have "length barrier_schedule = nat \<lceil>log 5 ((1 / 10) / (1 / 10 ^ 4))\<rceil>"
    by (simp add: barrier_schedule_def)
  ultimately show ?thesis
    using barrier_schedule_eq by simp
qed

section \<open>Regularization bounds\<close>

lemma within_bounds_Fin: "within_bounds rp \<longleftrightarrow> (\<exists>r. rp = Fin r \<and> 1 / 10 ^ 16 \<le> r \<and> r \<le> 10 ^ 16)"
  by (cases rp) (auto simp: within_bounds_def)

lemma positive_cases: "flt (Fin 0) a \<longleftrightarrow> (a = PInf \<or> (\<exists>r. a = Fin r \<and> 0 < r))"
  by (cases a) auto

lemma clip_within_bounds: "a \<noteq> NaN \<Longrightarrow> within_bounds (clip a (Fin (1 / 10 ^ 16)) (Fin (10 ^ 16)))"
  by (cases a) (auto simp: clip_def within_bounds_def)

lemma decay_factor:
  assumes "fgt g (Fin 0)"
  shows "\<exists>f. fmaximum (Fin (1 / 3)) (fsub (Fin 1) (fpow3 (fsub (fmul (Fin 2) g) (Fin 1)))) = Fin f \<and> 0 < f"
proof (cases g)
  case (Fin r)
  define t where "t = 1 - (2 * r - 1) * ((2 * r - 1) * (2 * r - 1))"
  have "fmaximum (Fin (1 / 3)) (fsub (Fin 1) (fpow3 (fsub (fmul (Fin 2) g) (Fin 1)))) = Fin (max (1 / 3) t)"
    by (simp add: Fin fsub_def fpow3_def t_def max_def)
  moreover have "0 < max (1 / 3) t" by simp
  ultimately show ?thesis by blast
next
  case PInf
  then have "fmaximum (Fin (1 / 3)) (fsub (Fin 1) (fpow3 (fsub (fmul (Fin 2) g) (Fin 1)))) = Fin (1 / 3)"
    by (simp add: fsub_def fpow3_def signed_inf_def)
  moreover have "(0 :: real) < 1 / 3" by simp
  ultimately show ?thesis by blast
next
  case NInf
  with assms show ?thesis by (simp add: fgt_def)
next
  case NaN
  with assms show ?thesis by (simp add: fgt_def)
qed

lemma acceptance_gain_ratio:
  "acceptance new_cost cost pred feas = (g, succ) \<Longrightarrow> succ \<Longrightarrow> fgt g (Fin 0)"
  by (auto simp: acceptance_def Let_def)

lemma update_regularization_bounds:
  assumes "within_bounds rp" and "flt (Fin 0) r_inc" and "flt (Fin 0) reg_inc"
    and "succ \<Longrightarrow> fgt g (Fin 0)"
    and "update_regularization succ g rp r_inc reg_inc = (rp', r_inc')"
  shows "within_bounds rp' \<and> flt (Fin 0) r_inc'"
proof -
  obtain r where r: "rp = Fin r" "0 < r"
    using assms(1) by (auto simp: within_bounds_Fin intro: less_le_trans [of 0 "1 / 10 ^ 16"])
  have "r_inc' = (if succ then Fin 2 else fmul (Fin 2) r_inc)"
    using assms(5) by (simp add: update_regularization_def Let_def)
  moreover have "flt (Fin 0) (fmul (Fin 2) r_inc)"
    using assms(2) by (cases r_inc) (simp_all add: signed_inf_def)
  ultimately have r_inc': "flt (Fin 0) r_inc'"
    by simp
  have "within_bounds rp'"
  proof (cases succ)
    case True
    then obtain f where f: "fmaximum (Fin (1 / 3)) (fsub (Fin 1) (fpow3 (fsub (fmul (Fin 2) g) (Fin 1)))) = Fin f"
      using decay_factor assms(4) by blast
    have "rp' = clip (Fin (r * f)) (Fin (1 / 10 ^ 16)) (Fin (10 ^ 16))"
      using assms(5) True r f by (simp add: update_regularization_def Let_def)
    then show ?thesis using clip_within_bounds [of "Fin (r * f)"] by simp
  next
    case False
    have "fmul rp reg_inc \<noteq> NaN"
      using assms(3) r by (auto simp: positive_cases signed_inf_def)
    moreover have "rp' = clip (fmul rp reg_inc) (Fin (1 / 10 ^ 16)) (Fin (10 ^ 16))"
      using assms(5) False by (simp add: update_regularization_def Let_def)
    ultimately show ?thesis using clip_within_bounds [of "fmul rp reg_inc"] by simp
  qed
  with r_inc' show ?thesis by simp
qed

lemma while_inner_loop_bounds:
  assumes "within_bounds (reg_of s)" and "flt (Fin 0) (reg_inc_of s)" and "flt (Fin 0) reg_inc"
    and "while_inner_loop E ocp bp x u cost d reg_inc s = Inr s'"
  shows "within_bounds (reg_of s') \<and> flt (Fin 0) (reg_inc_of s')"
proof -
  obtain a b c h rp r_inc n where s: "s = (a, b, c, h, rp, r_inc, n)"
    by (cases s) auto
  from assms(4) obtain new_cost pred feas g succ rp' r_inc' tx tu hn where
    acc: "acceptance new_cost cost pred feas = (g, succ)"
    and upd: "update_regularization succ g rp r_inc reg_inc = (rp', r_inc')"
    and s': "s' = (tx, tu, succ, hn, rp', r_inc', n + 1)"
    unfolding while_inner_loop_def s
    by (auto simp: Let_def split: prod.splits sum.splits)
  have "succ \<Longrightarrow> fgt g (Fin 0)"
    using acc by (rule acceptance_gain_ratio)
  then have "within_bounds rp' \<and> flt (Fin 0) r_inc'"
    using update_regularization_bounds [OF _ _ assms(3) _ upd] assms(1,2)
    by (simp add: s reg_of_def reg_inc_of_def)
  then show ?thesis by (simp add: s' reg_of_def reg_inc_of_def)
qed

lemma while_inner_bounds:
  "within_bounds (reg_of s) \<Longrightarrow> flt (Fin 0) (reg_inc_of s) \<Longrightarrow> flt (Fin 0) reg_inc \<Longrightarrow>
   while_inner E ocp bp x u cost d reg_inc s = Inr s' \<Longrightarrow>
   within_bounds (reg_of s') \<and> flt (Fin 0) (reg_inc_of s')"
proof (induction E ocp bp x u cost d reg_inc s rule: while_inner.induct)
  case (1 E ocp bp x u cost d reg_inc s)
  show ?case
  proof (cases "while_inner_cond s")
    case True
    then obtain s1 where s1: "while_inner_loop E ocp bp x u cost d reg_inc s = Inr s1"
      and rest: "while_inner E ocp bp x u cost d reg_inc s1 = Inr s'"
      using "1.prems"(4) by (subst (asm) while_inner.simps) (auto split: sum.splits)
    have "within_bounds (reg_of s1) \<and> flt (Fin 0) (reg_inc_of s1)"
      using while_inner_loop_bounds [OF "1.prems"(1,2,3) s1] .
    then show ?thesis
      using "1.IH" [OF True s1 _ _ "1.prems"(3) rest] by simp
  next
    case False
    then have "s' = s"
      using "1.prems"(4) by (subst (asm) while_inner.simps) simp
    then show ?thesis using "1.prems" by simp
  qed
qed

lemma while_body_bounds:
  assumes "newton_reg_ok val" and "while_body E ocp bp val = Inr val'"
  shows "newton_reg_ok val'"
proof -
  obtain x u it rp ri h where v: "val = (x, u, it, rp, ri, h)" by (cases val) auto
  from assms(2) obtain s' where
    w: "while_inner E ocp bp x u (total_cost ocp x u bp) (compute_derivatives E ocp x u bp) ri
          (x, u, False, Fin 0, rp, ri, 0) = Inr s'"
    and v': "val' = (case s' of (x', u', _, hn, rp', ri', _) \<Rightarrow> (x', u', it + 1, rp', ri', hn))"
    unfolding while_body_def v by (auto simp: Let_def split: sum.splits prod.splits)
  have "within_bounds (reg_of s') \<and> flt (Fin 0) (reg_inc_of s')"
    using while_inner_bounds [OF _ _ _ w] assms(1)
    by (simp add: v newton_reg_ok_def reg_of_def reg_inc_of_def)
  then show ?thesis
    by (cases s') (simp add: v' newton_reg_ok_def reg_of_def reg_inc_of_def)
qed

lemma newton_reach_bounds:
  "newton_reach E ocp controls initial_state bp val \<Longrightarrow> newton_reg_ok val"
proof (induction rule: newton_reach.induct)
  case start
  show ?case by (simp add: newton_reg_ok_def within_bounds_def)
next
  case (iterate val val')
  then show ?case using while_body_bounds by blast
qed

lemma inner_reach_bounds:
  "inner_reach E ocp controls initial_state bp val s \<Longrightarrow>
   newton_reg_ok val \<and> within_bounds (reg_of s) \<and> flt (Fin 0) (reg_inc_of s)"
proof (induction rule: inner_reach.induct)
  case (enter x u iterations reg_param reg_inc h)
  then show ?case
    using newton_reach_bounds [OF enter(1)]
    by (simp add: newton_reg_ok_def reg_of_def reg_inc_of_def)
next
  case (update x u iterations reg_param reg_inc h inner_val inner_val')
  then have "flt (Fin 0) reg_inc" by (simp add: newton_reg_ok_def)
  then show ?case
    using while_inner_loop_bounds [OF _ _ _ update(3)] update.IH by simp
qed

text \<open>
  C9. In every run of \<open>ddp\<close>, the regularization scalar of every value the inner loop
  passes through (after the accept-branch decay as after the reject-branch growth) and of
  every value the outer loop passes through lies within \<open>[1e-16, 1e16]\<close>.
\<close>

theorem regularization_within_bounds:
  "(inner_reach E ocp controls initial_state barrier_param val inner_val \<longrightarrow>
      fle (Fin (1 / 10 ^ 16)) (reg_of inner_val) \<and> fle (reg_of inner_val) (Fin (10 ^ 16)))
   \<and> (newton_reach E ocp controls initial_state barrier_param (x, u, iterations, reg_param, reg_inc, h) \<longrightarrow>
      fle (Fin (1 / 10 ^ 16)) reg_param \<and> fle reg_param (Fin (10 ^ 16)))"
  using inner_reach_bounds [of E ocp controls initial_state barrier_param val inner_val]
    newton_reach_bounds [of E ocp controls initial_state barrier_param "(x, u, iterations, reg_param, reg_inc, h)"]
  by (auto simp: within_bounds_def newton_reg_ok_def)

section \<open>A run that exhausts the inner loop\<close>

lemma hill_derivatives:
  "compute_derivatives jax_hill ocp_hill [[Fin 0], [Fin 0]] [[Fin 0]] (Fin beta) =
     \<lparr> cx = [[Fin 0]], cu = [[Fin 0]], cxx = [[[Fin 0]]], cuu = [[[Fin (- (1 / 10 ^ 5))]]],
       cxu = [[[Fin 0]]], fx = [[[Fin 1]]], fu = [[[Fin 1]]], fxx = [[[[Fin 0]]]],
       fuu = [[[[Fin 0]]]], fxu = [[[[Fin 0]]]] \<rparr>"
  by (simp add: compute_derivatives_def derivatives_body_def jax_hill_def Let_def fsub_def)

lemma hill_bwd_pass:
  "bwd_pass jax_hill (final_cost ocp_hill) [Fin 0]
     (compute_derivatives jax_hill ocp_hill [[Fin 0], [Fin 0]] [[Fin 0]] (Fin beta)) (Fin r) =
     ([[Fin 1]], [[[Fin 0]]], Fin (1 / 2 / 10 ^ 5), False, [[Fin (1 / 10 ^ 5)]])"
  unfolding hill_derivatives
  by (simp add: bwd_pass_def stages_def scan_reverse_def bwd_body_def
      norm_fro_def fsum_def jax_hill_def Let_def vadd_def matvec_def dot_def madd_def
      matmul_def vecmat_def tensordot1_def msmul_def smul_def eye_def vneg_def mneg_def
      vsub_def msub_def fgt_def fsub_def)

lemma clip_Fin: "clip (Fin a) (Fin lo) (Fin hi) = Fin (min (max a lo) hi)"
  by (simp add: clip_def min_def max_def)

lemma hill_candidate:
  "nonlin_rollout ocp_hill [[[Fin 0]]] [[Fin 1]] [[Fin 0], [Fin 0]] [[Fin 0]]
     = Inr ([[Fin 0], [Fin 1]], [[Fin 1]])"
  by (simp add: nonlin_rollout_def first_row_def rollout_body_def ocp_hill_def Let_def
      vadd_def vsub_def matvec_def dot_def fsum_def fsub_def)

lemma hill_candidate_infeasible:
  "\<not> check_feasibility ocp_hill [[Fin 0], [Fin 1]] [[Fin 1]]"
  by (simp add: check_feasibility_def ocp_hill_def fsub_def)


lemma hill_step:
  "while_inner_loop jax_hill ocp_hill (Fin beta) [[Fin 0], [Fin 0]] [[Fin 0]] cost
     (compute_derivatives jax_hill ocp_hill [[Fin 0], [Fin 0]] [[Fin 0]] (Fin beta)) (Fin 2)
     (a, b, sf, h, Fin r, rinc, n) =
   Inr ([[Fin 0], [Fin 1]], [[Fin 1]], False, Fin (1 / 10 ^ 5),
        Fin (min (max (r * 2) (1 / 10 ^ 16)) (10 ^ 16)), fmul (Fin 2) rinc, n + 1)"
proof -
  have l: "last_row [[Fin 0], [Fin 0]] = Inr [Fin 0]"
    by (simp add: last_row_def)
  have m: "jnp_max (map fabs (concat [[Fin (1 / 10 ^ 5)]])) = Inr (Fin (1 / 10 ^ 5))"
    by (simp add: jnp_max_def)
  have c: "candidate_cost ocp_hill (Fin beta) [[Fin 0], [Fin 1]] [[Fin 1]] = PInf"
    using hill_candidate_infeasible by (simp add: candidate_cost_def)
  have acc: "acceptance PInf cost (Fin (1 / 2 / 10 ^ 5)) False = (fdiv (fsub PInf cost) (Fin (1 / 2 / 10 ^ 5)), False)"
    by (simp add: acceptance_def Let_def)
  have upd: "update_regularization False g (Fin r) rinc (Fin 2) =
       (Fin (min (max (r * 2) (1 / 10 ^ 16)) (10 ^ 16)), fmul (Fin 2) rinc)" for g
    unfolding update_regularization_def Let_def by (simp add: clip_Fin)
  show ?thesis
    unfolding while_inner_loop_def prod.case l sum.case hill_bwd_pass hill_candidate m Let_def c acc upd
    by simp
qed

lemma hill_inner_exhausted:
  "n \<le> 500 \<Longrightarrow>
   \<exists>r' rinc'. while_inner jax_hill ocp_hill (Fin beta) [[Fin 0], [Fin 0]] [[Fin 0]] cost
     (compute_derivatives jax_hill ocp_hill [[Fin 0], [Fin 0]] [[Fin 0]] (Fin beta)) (Fin 2)
     (a, b, False, h, Fin r, rinc, n) =
   Inr ([[Fin 0], [Fin 1]], [[Fin 1]], False, Fin (1 / 10 ^ 5), Fin r', rinc', 501)"
proof (induction "nat (500 - n)" arbitrary: a b h r rinc n)
  case 0
  then have n: "n = 500" by simp
  show ?case
    apply (subst while_inner.simps)
    apply (simp add: while_inner_cond_def n hill_step)
    apply (subst while_inner.simps)
    apply (simp add: while_inner_cond_def)
    done
next
  case (Suc k)
  then have k: "k = nat (500 - (n + 1))" and n1: "n + 1 \<le> 500" by simp_all
  from Suc.hyps(1) [OF k n1]
  obtain r' rinc' where
    "while_inner jax_hill ocp_hill (Fin beta) [[Fin 0], [Fin 0]] [[Fin 0]] cost
       (compute_derivatives jax_hill ocp_hill [[Fin 0], [Fin 0]] [[Fin 0]] (Fin beta)) (Fin 2)
       ([[Fin 0], [Fin 1]], [[Fin 1]], False, Fin (1 / 10 ^ 5),
        Fin (min (max (r * 2) (1 / 10 ^ 16)) (10 ^ 16)), fmul (Fin 2) rinc, n + 1) =
     Inr ([[Fin 0], [Fin 1]], [[Fin 1]], False, Fin (1 / 10 ^ 5), Fin r', rinc', 501)"
    by blast
  moreover have "while_inner_cond (a, b, False, h, Fin r, rinc, n)"
    using Suc.prems by (simp add: while_inner_cond_def)
  ultimately show ?case
    by (subst while_inner.simps) (simp add: hill_step)
qed

lemma hill_while_body:
  "\<exists>r' rinc'. while_body jax_hill ocp_hill (Fin beta) ([[Fin 0], [Fin 0]], [[Fin 0]], 0, Fin 1, Fin 2, Fin 1)
     = Inr ([[Fin 0], [Fin 1]], [[Fin 1]], 1, Fin r', rinc', Fin (1 / 10 ^ 5))"
proof -
  obtain r' rinc' where
    "while_inner jax_hill ocp_hill (Fin beta) [[Fin 0], [Fin 0]] [[Fin 0]]
       (total_cost ocp_hill [[Fin 0], [Fin 0]] [[Fin 0]] (Fin beta))
       (compute_derivatives jax_hill ocp_hill [[Fin 0], [Fin 0]] [[Fin 0]] (Fin beta)) (Fin 2)
       ([[Fin 0], [Fin 0]], [[Fin 0]], False, Fin 0, Fin 1, Fin 2, 0) =
     Inr ([[Fin 0], [Fin 1]], [[Fin 1]], False, Fin (1 / 10 ^ 5), Fin r', rinc', 501)"
    using hill_inner_exhausted [of 0 beta "total_cost ocp_hill [[Fin 0], [Fin 0]] [[Fin 0]] (Fin beta)"
        "[[Fin 0], [Fin 0]]" "[[Fin 0]]" "Fin 0" 1 "Fin 2"]
    by auto
  then show ?thesis
    by (simp add: while_body_def Let_def)
qed

lemma hill_ddp:
  "ddp jax_hill ocp_hill [[Fin 0]] [Fin 0] (Fin beta) = Inr ([[Fin 0], [Fin 1]], [[Fin 1]], 1)"
proof -
  obtain r' rinc' where b:
    "while_body jax_hill ocp_hill (Fin beta) ([[Fin 0], [Fin 0]], [[Fin 0]], 0, Fin 1, Fin 2, Fin 1)
     = Inr ([[Fin 0], [Fin 1]], [[Fin 1]], 1, Fin r', rinc', Fin (1 / 10 ^ 5))"
    using hill_while_body by blast
  have r: "rollout (dynamics ocp_hill) [[Fin 0]] [Fin 0] = [[Fin 0], [Fin 0]]"
    by (simp add: ocp_hill_def vadd_def)
  have "ddp_while jax_hill ocp_hill (Fin beta) ([[Fin 0], [Fin 0]], [[Fin 0]], 0, Fin 1, Fin 2, Fin 1)
     = Inr ([[Fin 0], [Fin 1]], [[Fin 1]], 1, Fin r', rinc', Fin (1 / 10 ^ 5))"
    apply (subst ddp_while.simps)
    apply (simp add: while_cond_def b)
    apply (subst ddp_while.simps)
    apply (simp add: while_cond_def)
    done
  then show ?thesis
    unfolding ddp_def Let_def r by simp
qed

section \<open>Concrete values of the loops\<close>

lemma hill_start:
  "newton_reach jax_hill ocp_hill [[Fin 0]] [Fin 0] (Fin beta) ([[Fin 0], [Fin 0]], [[Fin 0]], 0, Fin 1, Fin 2, Fin 1)"
proof -
  have "rollout (dynamics ocp_hill) [[Fin 0]] [Fin 0] = [[Fin 0], [Fin 0]]"
    by (simp add: ocp_hill_def vadd_def)
  then show ?thesis
    using newton_reach.start [of jax_hill ocp_hill "[[Fin 0]]" "[Fin 0]" "Fin beta"] by simp
qed

lemma hill_first_update:
  "inner_reach jax_hill ocp_hill [[Fin 0]] [Fin 0] (Fin beta)
     ([[Fin 0], [Fin 0]], [[Fin 0]], 0, Fin 1, Fin 2, Fin 1)
     ([[Fin 0], [Fin 1]], [[Fin 1]], False, Fin (1 / 10 ^ 5), Fin 2, Fin 4, 1)"
proof -
  have c: "while_cond ([[Fin 0], [Fin 0]], [[Fin 0]], 0, Fin 1, Fin 2, Fin 1)"
    by (simp add: while_cond_def)
  have i: "while_inner_cond ([[Fin 0], [Fin 0]], [[Fin 0]], False, Fin 0, Fin 1, Fin 2, 0)"
    by (simp add: while_inner_cond_def)
  have s: "while_inner_loop jax_hill ocp_hill (Fin beta) [[Fin 0], [Fin 0]] [[Fin 0]]
             (total_cost ocp_hill [[Fin 0], [Fin 0]] [[Fin 0]] (Fin beta))
             (compute_derivatives jax_hill ocp_hill [[Fin 0], [Fin 0]] [[Fin 0]] (Fin beta)) (Fin 2)
             ([[Fin 0], [Fin 0]], [[Fin 0]], False, Fin 0, Fin 1, Fin 2, 0)
           = Inr ([[Fin 0], [Fin 1]], [[Fin 1]], False, Fin (1 / 10 ^ 5), Fin 2, Fin 4, 1)"
    by (simp add: hill_step)
  show ?thesis
    by (rule inner_reach.update [OF inner_reach.enter [OF hill_start c] i s])
qed

text \<open>The run of the one-stage problem passes through these values.\<close>

theorem regularization_within_bounds_witness:
  "inner_reach jax_hill ocp_hill [[Fin 0]] [Fin 0] (Fin (1 / 10))
     ([[Fin 0], [Fin 0]], [[Fin 0]], 0, Fin 1, Fin 2, Fin 1)
     ([[Fin 0], [Fin 1]], [[Fin 1]], False, Fin (1 / 10 ^ 5), Fin 2, Fin 4, 1)
   \<and> fle (Fin (1 / 10 ^ 16)) (Fin 2) \<and> fle (Fin 2) (Fin (10 ^ 16))
   \<and> newton_reach jax_hill ocp_hill [[Fin 0]] [Fin 0] (Fin (1 / 10))
     ([[Fin 0], [Fin 0]], [[Fin 0]], 0, Fin 1, Fin 2, Fin 1)
   \<and> fle (Fin (1 / 10 ^ 16)) (Fin 1) \<and> fle (Fin 1) (Fin (10 ^ 16))"
  using regularization_within_bounds [of jax_hill ocp_hill "[[Fin 0]]" "[Fin 0]" "Fin (1 / 10)"
      "([[Fin 0], [Fin 0]], [[Fin 0]], 0, Fin 1, Fin 2, Fin 1)"
      "([[Fin 0], [Fin 1]], [[Fin 1]], False, Fin (1 / 10 ^ 5), Fin 2, Fin 4, 1)"
      "[[Fin 0], [Fin 0]]" "[[Fin 0]]" 0 "Fin 1" "Fin 2" "Fin 1"]
    hill_first_update [of "1 / 10"] hill_start [of "1 / 10"]
  by (simp add: reg_of_def)

section \<open>Iteration caps\<close>

lemma while_inner_exit:
  "while_inner E ocp bp x u cost d reg_inc s = Inr s' \<Longrightarrow> inner_counter s \<le> 501 \<Longrightarrow>
   \<not> while_inner_cond s' \<and> inner_counter s \<le> inner_counter s' \<and> inner_counter s' \<le> 501
   \<and> (while_inner_cond s \<longrightarrow> inner_counter s < inner_counter s')"
proof (induction E ocp bp x u cost d reg_inc s rule: while_inner.induct)
  case (1 E ocp bp x u cost d reg_inc s)
  show ?case
  proof (cases "while_inner_cond s")
    case True
    then obtain s1 where s1: "while_inner_loop E ocp bp x u cost d reg_inc s = Inr s1"
      and rest: "while_inner E ocp bp x u cost d reg_inc s1 = Inr s'"
      using "1.prems"(1) by (subst (asm) while_inner.simps) (auto split: sum.splits)
    have c1: "inner_counter s1 = inner_counter s + 1"
      using s1 by (rule while_inner_loop_counter)
    have "inner_counter s \<le> 500"
      using True by (auto simp: while_inner_cond_def inner_counter_def split: prod.splits)
    with c1 have "inner_counter s1 \<le> 501" by simp
    from "1.IH" [OF True s1 rest this] c1 True show ?thesis by simp
  next
    case False
    then have "s' = s"
      using "1.prems"(1) by (subst (asm) while_inner.simps) simp
    with False "1.prems" show ?thesis by simp
  qed
qed

lemma ddp_while_exit:
  "ddp_while E ocp bp v = Inr v' \<Longrightarrow> iterations_of v \<le> 501 \<Longrightarrow>
   \<not> while_cond v' \<and> iterations_of v \<le> iterations_of v' \<and> iterations_of v' \<le> 501
   \<and> (while_cond v \<longrightarrow> iterations_of v < iterations_of v')"
proof (induction E ocp bp v rule: ddp_while.induct)
  case (1 E ocp bp v)
  show ?case
  proof (cases "while_cond v")
    case True
    then obtain v1 where v1: "while_body E ocp bp v = Inr v1"
      and rest: "ddp_while E ocp bp v1 = Inr v'"
      using "1.prems"(1) by (subst (asm) ddp_while.simps) (auto split: sum.splits)
    have c1: "iterations_of v1 = iterations_of v + 1"
      using v1 by (rule while_body_iterations)
    have "iterations_of v \<le> 500"
      using True by (auto simp: while_cond_def iterations_of_def split: prod.splits)
    with c1 have "iterations_of v1 \<le> 501" by simp
    from "1.IH" [OF True v1 rest this] c1 True show ?thesis by simp
  next
    case False
    then have "v' = v"
      using "1.prems"(1) by (subst (asm) ddp_while.simps) simp
    with False "1.prems" show ?thesis by simp
  qed
qed

text \<open>
  C6, as the code has it. The inner loop leaves when a candidate is accepted or its
  counter exceeds \<open>500\<close>, the outer loop when the residual is below \<open>1e-4\<close> or its counter
  exceeds \<open>500\<close>; both counters start at \<open>0\<close> and count the iterations, so each loop runs
  at least once and at most \<open>501\<close> times. Both loops are total functions (their
  termination is proved where they are defined).
\<close>

theorem loops_stop_within_501_iterations:
  "(while_inner E ocp barrier_param x u cost derivatives reg_inc
      (x, u, False, Fin 0, reg_param, reg_inc, 0) = Inr inner_val \<longrightarrow>
      \<not> while_inner_cond inner_val \<and> 1 \<le> inner_counter inner_val \<and> inner_counter inner_val \<le> 501)
   \<and> (ddp E ocp controls initial_state barrier_param = Inr (opt_states, opt_controls, total_iterations) \<longrightarrow>
      1 \<le> total_iterations \<and> total_iterations \<le> 501)"
proof (intro conjI impI)
  assume a: "while_inner E ocp barrier_param x u cost derivatives reg_inc
      (x, u, False, Fin 0, reg_param, reg_inc, 0) = Inr inner_val"
  have "inner_counter (x, u, False, Fin 0, reg_param, reg_inc, 0) = 0"
    by (simp add: inner_counter_def)
  moreover have "while_inner_cond (x, u, False, Fin 0, reg_param, reg_inc, 0)"
    by (simp add: while_inner_cond_def)
  ultimately have r: "\<not> while_inner_cond inner_val \<and> 0 < inner_counter inner_val \<and> inner_counter inner_val \<le> 501"
    using while_inner_exit [OF a] by simp
  from r show "\<not> while_inner_cond inner_val" by simp
  from r show "1 \<le> inner_counter inner_val" by simp
  from r show "inner_counter inner_val \<le> 501" by simp
next
  assume a: "ddp E ocp controls initial_state barrier_param = Inr (opt_states, opt_controls, total_iterations)"
  define v0 :: val where
    "v0 = (rollout (dynamics ocp) controls initial_state, controls, 0, Fin 1, Fin 2, Fin 1)"
  from a obtain v' where w: "ddp_while E ocp barrier_param v0 = Inr v'"
    and n: "iterations_of v' = total_iterations"
    unfolding ddp_def Let_def v0_def [symmetric]
    by (auto simp: iterations_of_def split: sum.splits prod.splits)
  have "iterations_of v0 = 0" by (simp add: iterations_of_def v0_def)
  moreover have "while_cond v0" by (simp add: while_cond_def v0_def)
  ultimately have r: "0 < iterations_of v' \<and> iterations_of v' \<le> 501"
    using ddp_while_exit [OF w] by simp
  from r n show "1 \<le> total_iterations" by simp
  from r n show "total_iterations \<le> 501" by simp
qed

text \<open>
  C6 as stated (at most \<open>500\<close> iterations of the inner loop) fails: on the one-stage
  problem no candidate is accepted and the inner loop returns after \<open>501\<close> iterations.
\<close>

theorem inner_loop_runs_501_iterations:
  "map_sum id inner_counter
     (while_inner jax_hill ocp_hill (Fin (1 / 10)) [[Fin 0], [Fin 0]] [[Fin 0]]
        (total_cost ocp_hill [[Fin 0], [Fin 0]] [[Fin 0]] (Fin (1 / 10)))
        (compute_derivatives jax_hill ocp_hill [[Fin 0], [Fin 0]] [[Fin 0]] (Fin (1 / 10))) (Fin 2)
        ([[Fin 0], [Fin 0]], [[Fin 0]], False, Fin 0, Fin 1, Fin 2, 0)) = Inr 501
   \<and> \<not> (501 :: int) \<le> 500"
proof -
  obtain r' rinc' where
    "while_inner jax_hill ocp_hill (Fin (1 / 10)) [[Fin 0], [Fin 0]] [[Fin 0]]
       (total_cost ocp_hill [[Fin 0], [Fin 0]] [[Fin 0]] (Fin (1 / 10)))
       (compute_derivatives jax_hill ocp_hill [[Fin 0], [Fin 0]] [[Fin 0]] (Fin (1 / 10))) (Fin 2)
       ([[Fin 0], [Fin 0]], [[Fin 0]], False, Fin 0, Fin 1, Fin 2, 0) =
     Inr ([[Fin 0], [Fin 1]], [[Fin 1]], False, Fin (1 / 10 ^ 5), Fin r', rinc', 501)"
    using hill_inner_exhausted [of 0 "1 / 10" "total_cost ocp_hill [[Fin 0], [Fin 0]] [[Fin 0]] (Fin (1 / 10))"
        "[[Fin 0], [Fin 0]]" "[[Fin 0]]" "Fin 0" 1 "Fin 2"]
    by auto
  then show ?thesis by (simp add: inner_counter_def)
qed

theorem loops_stop_within_501_iterations_witness:
  "ddp jax_hill ocp_hill [[Fin 0]] [Fin 0] (Fin (1 / 10)) = Inr ([[Fin 0], [Fin 1]], [[Fin 1]], 1)
   \<and> (1 :: int) \<le> 1 \<and> (1 :: int) \<le> 501
   \<and> map_sum id inner_counter
     (while_inner jax_hill ocp_hill (Fin (1 / 10)) [[Fin 0], [Fin 0]] [[Fin 0]]
        (total_cost ocp_hill [[Fin 0], [Fin 0]] [[Fin 0]] (Fin (1 / 10)))
        (compute_derivatives jax_hill ocp_hill [[Fin 0], [Fin 0]] [[Fin 0]] (Fin (1 / 10))) (Fin 2)
        ([[Fin 0], [Fin 0]], [[Fin 0]], False, Fin 0, Fin 1, Fin 2, 0)) = Inr 501"
proof -
  obtain r' rinc' where w:
    "while_inner jax_hill ocp_hill (Fin (1 / 10)) [[Fin 0], [Fin 0]] [[Fin 0]]
       (total_cost ocp_hill [[Fin 0], [Fin 0]] [[Fin 0]] (Fin (1 / 10)))
       (compute_derivatives jax_hill ocp_hill [[Fin 0], [Fin 0]] [[Fin 0]] (Fin (1 / 10))) (Fin 2)
       ([[Fin 0], [Fin 0]], [[Fin 0]], False, Fin 0, Fin 1, Fin 2, 0) =
     Inr ([[Fin 0], [Fin 1]], [[Fin 1]], False, Fin (1 / 10 ^ 5), Fin r', rinc', 501)"
    using hill_inner_exhausted [of 0 "1 / 10" "total_cost ocp_hill [[Fin 0], [Fin 0]] [[Fin 0]] (Fin (1 / 10))"
        "[[Fin 0], [Fin 0]]" "[[Fin 0]]" "Fin 0" 1 "Fin 2"]
    by auto
  have d: "ddp jax_hill ocp_hill [[Fin 0]] [Fin 0] (Fin (1 / 10)) = Inr ([[Fin 0], [Fin 1]], [[Fin 1]], 1)"
    by (rule hill_ddp)
  from loops_stop_within_501_iterations [of jax_hill ocp_hill "Fin (1 / 10)" "[[Fin 0], [Fin 0]]" "[[Fin 0]]"
      "total_cost ocp_hill [[Fin 0], [Fin 0]] [[Fin 0]] (Fin (1 / 10))"
      "compute_derivatives jax_hill ocp_hill [[Fin 0], [Fin 0]] [[Fin 0]] (Fin (1 / 10))" "Fin 2" "Fin 1"
      "([[Fin 0], [Fin 1]], [[Fin 1]], False, Fin (1 / 10 ^ 5), Fin r', rinc', 501)"
      "[[Fin 0]]" "[Fin 0]" "[[Fin 0], [Fin 1]]" "[[Fin 1]]" 1] w d
  show ?thesis by (simp add: inner_counter_def)
qed

section \<open>Acceptance\<close>











lemma bowl_final_cost: "final_cost ocp_bowl = (\<lambda>x. fmul (Fin (1 / 2)) (dot (vsub x [Fin (1 / 4)]) (vsub x [Fin (1 / 4)])))"
  by (simp add: ocp_bowl_def)






section \<open>Where the returned trajectory comes from\<close>






section \<open>Regularization of the backward pass\<close>





end
